theory Spec2Isabelle
  imports Main "HOL-Library.Word"
begin

section \<open>JavaScript strings and the string operations the client uses\<close>

text \<open>
  A JavaScript string is a sequence of UTF-16 code units; each unit is modelled as a
  natural number below 65536.  String literals of the source are written through
  \<open>lit\<close>, which maps every ASCII character to its code unit.
\<close>

type_synonym jsstring = "nat list"

abbreviation lit :: "string \<Rightarrow> jsstring" where
  "lit s \<equiv> map of_char s"

text \<open>
  \<open>String.prototype.trim\<close> strips WhiteSpace and LineTerminator code units from both
  ends: TAB, LF, VT, FF, CR, SPACE, NBSP, U+1680, U+2000..U+200A, U+2028, U+2029, U+202F,
  U+205F, U+3000 and U+FEFF.
\<close>

definition is_js_space :: "nat \<Rightarrow> bool" where
  "is_js_space c \<longleftrightarrow>
     c = 9 \<or> c = 10 \<or> c = 11 \<or> c = 12 \<or> c = 13 \<or> c = 32 \<or> c = 160 \<or> c = 5760 \<or>
     (8192 \<le> c \<and> c \<le> 8202) \<or> c = 8232 \<or> c = 8233 \<or> c = 8239 \<or> c = 8287 \<or>
     c = 12288 \<or> c = 65279"

definition trim :: "jsstring \<Rightarrow> jsstring" where
  "trim s = rev (dropWhile is_js_space (rev (dropWhile is_js_space s)))"

definition startsWith :: "jsstring \<Rightarrow> jsstring \<Rightarrow> bool" where
  "startsWith s p \<longleftrightarrow> take (length p) s = p"

text \<open>\<open>s.slice(n)\<close> for a non-negative \<open>n\<close>.\<close>

definition slice :: "jsstring \<Rightarrow> nat \<Rightarrow> jsstring" where
  "slice s n = drop n s"

text \<open>
  \<open>s.split("\n")\<close>: the pieces between line feeds, one more piece than there are line
  feeds; the empty string splits into one empty piece.
\<close>

fun split_nl :: "jsstring \<Rightarrow> jsstring list" where
  "split_nl [] = [[]]"
| "split_nl (c # cs) =
     (if c = 10 then [] # split_nl cs
      else case split_nl cs of [] \<Rightarrow> [[c]] | piece # pieces \<Rightarrow> (c # piece) # pieces)"

text \<open>
  \<open>s.includes(k)\<close>: \<open>k\<close> occurs in \<open>s\<close> as a contiguous run of code units.
\<close>

fun js_includes :: "jsstring \<Rightarrow> jsstring \<Rightarrow> bool" where
  "js_includes [] k = (k = [])"
| "js_includes (c # cs) k = (startsWith (c # cs) k \<or> js_includes cs k)"

text \<open>
  The relational operator \<open><=\<close> on two strings compares them code unit by code unit.
\<close>

fun js_string_le :: "jsstring \<Rightarrow> jsstring \<Rightarrow> bool" where
  "js_string_le [] t = True"
| "js_string_le (x # xs) [] = False"
| "js_string_le (x # xs) (y # ys) = (x < y \<or> (x = y \<and> js_string_le xs ys))"

text \<open>
  \<open>n.toString()\<close> for a non-negative integer: its decimal digits, most significant
  first.
\<close>

fun toString :: "nat \<Rightarrow> jsstring" where
  "toString n = (if n < 10 then [48 + n] else toString (n div 10) @ [48 + n mod 10])"

declare toString.simps [simp del]

section \<open>The platform's UTF-8 decoder\<close>

text \<open>
  \<open>new TextDecoder().decode(value)\<close> is the UTF-8 decoder of the Encoding standard,
  in replacement mode, without the \<open>stream\<close> option: every call starts from a fresh
  decoder, and a sequence that is still incomplete at the end of the call's input is
  replaced by U+FFFD.  The pending state is the code point collected so far, the number
  of continuation bytes still needed, and the bounds the next byte must lie in.
\<close>

type_synonym utf8_pending = "nat \<times> nat \<times> nat \<times> nat"

definition utf8_lead :: "nat \<Rightarrow> nat list \<times> utf8_pending" where
  "utf8_lead b =
     (if b \<le> 0x7F then ([b], (0, 0, 0x80, 0xBF))
      else if 0xC2 \<le> b \<and> b \<le> 0xDF then ([], (b - 0xC0, 1, 0x80, 0xBF))
      else if 0xE0 \<le> b \<and> b \<le> 0xEF then
        ([], (b - 0xE0, 2, (if b = 0xE0 then 0xA0 else 0x80), (if b = 0xED then 0x9F else 0xBF)))
      else if 0xF0 \<le> b \<and> b \<le> 0xF4 then
        ([], (b - 0xF0, 3, (if b = 0xF0 then 0x90 else 0x80), (if b = 0xF4 then 0x8F else 0xBF)))
      else ([0xFFFD], (0, 0, 0x80, 0xBF)))"

fun utf8_run :: "utf8_pending \<Rightarrow> nat list \<Rightarrow> nat list" where
  "utf8_run (cp, needed, lo, hi) [] = (if needed = 0 then [] else [0xFFFD])"
| "utf8_run (cp, needed, lo, hi) (b # bs) =
     (if needed = 0 then fst (utf8_lead b) @ utf8_run (snd (utf8_lead b)) bs
      else if b < lo \<or> hi < b then
        0xFFFD # fst (utf8_lead b) @ utf8_run (snd (utf8_lead b)) bs
      else if needed = 1 then (cp * 64 + (b - 0x80)) # utf8_run (0, 0, 0x80, 0xBF) bs
      else utf8_run (cp * 64 + (b - 0x80), needed - 1, 0x80, 0xBF) bs)"

text \<open>With \<open>ignoreBOM\<close> at its default, a leading U+FEFF of the output is dropped.\<close>

definition strip_bom :: "nat list \<Rightarrow> nat list" where
  "strip_bom cps = (case cps of [] \<Rightarrow> [] | c # cs \<Rightarrow> if c = 0xFEFF then cs else c # cs)"

text \<open>A code point above U+FFFF becomes a surrogate pair.\<close>

definition utf16_units :: "nat \<Rightarrow> nat list" where
  "utf16_units cp =
     (if cp < 0x10000 then [cp]
      else [0xD800 + (cp - 0x10000) div 0x400, 0xDC00 + (cp - 0x10000) mod 0x400])"

definition decoder_decode :: "8 word list \<Rightarrow> jsstring" where
  "decoder_decode value =
     concat (map utf16_units (strip_bom (utf8_run (0, 0, 0x80, 0xBF) (map unat value))))"

section \<open>The data model of the chat client\<close>

datatype role = User | Assistant

record ToolCall =
  call_id :: jsstring
  function_name :: jsstring
  function_arguments :: jsstring

text \<open>
  The entries of \<open>commits\<close>, \<open>issues\<close> and \<open>pullRequests\<close> and the \<open>repository\<close>
  are of type \<open>any\<close> in the source; they are values of a type parameter here.  An
  optional field that is absent is \<open>None\<close>.
\<close>

record 'a ToolResult =
  screenshot :: "jsstring option"
  url :: "jsstring option"
  repository :: "'a option"
  commits :: "'a list option"
  issues :: "'a list option"
  pullRequests :: "'a list option"

text \<open>
  Every message id of the client is \<open>Date.now().toString()\<close>; the model keeps the
  number and renders it with \<open>toString\<close> where the source compares ids as strings.
\<close>

record 'a Message =
  msg_id :: nat
  role :: role
  content :: jsstring
  toolCalls :: "ToolCall list option"
  toolResults :: "'a ToolResult list option"

text \<open>
  The payload of one record of the stream, after \<open>JSON.parse\<close>, seen through the fields
  the client reads, at the types the interfaces \<open>Message\<close>, \<open>ToolCall\<close> and
  \<open>ToolResult\<close> declare: \<open>data.type\<close> selects the case, \<open>Other\<close> is any other type
  tag.  The fields \<open>toolCalls\<close> and \<open>toolResults\<close> of a \<open>done\<close> event may be absent.
\<close>

datatype 'a StreamEvent =
    Content jsstring
  | Tool_call ToolCall
  | Tool_result "'a ToolResult"
  | Done "ToolCall list option" "'a ToolResult list option"
  | Error jsstring
  | Other jsstring

text \<open>What a \<open>try\<close> block of the stream loop can catch.\<close>

datatype thrown = Decode_failure | Server_error jsstring

text \<open>The calls of \<open>console.log\<close> and \<open>console.error\<close>, in order.\<close>

datatype 'a console =
    Received_event "'a StreamEvent"
  | Received_final_event "'a StreamEvent"
  | Error_from_server jsstring
  | Error_parsing_SSE_data thrown jsstring
  | Error_parsing_final_SSE_data thrown
  | Response_body_not_readable

text \<open>
  The state \<open>handleSubmit\<close> works on: the five React state variables of
  \<open>ChatInterface\<close> and the two locals \<open>assistantContent\<close> and \<open>buffer\<close> of the
  stream loop.
\<close>

record 'a client =
  messages :: "'a Message list"
  input :: jsstring
  isLoading :: bool
  currentToolCalls :: "ToolCall list"
  currentToolResults :: "'a ToolResult list"
  assistantContent :: jsstring
  buffer :: jsstring

text \<open>\<open>x || []\<close> for an optional array.\<close>

definition or_empty :: "'b list option \<Rightarrow> 'b list" where
  "or_empty x = (case x of None \<Rightarrow> [] | Some xs \<Rightarrow> xs)"

section \<open>Applying one decoded event\<close>

text \<open>
  The dispatch on \<open>data.type\<close> inside the loop over the lines of a chunk.  The result
  is the new state, the exception the branch throws (if any) and the console output.
  Every \<open>setMessages((prev) => prev.map(...))\<close> is applied to the list when it is
  called; the updaters only read \<open>assistantContent\<close>, which only grows, so the list
  after the last event is the same when React runs them later.
\<close>

definition apply_event ::
  "nat \<Rightarrow> 'a StreamEvent \<Rightarrow> 'a client \<Rightarrow> 'a client \<times> thrown option \<times> 'a console list" where
  "apply_event assistantId data st =
     (case data of
        Content c \<Rightarrow>
          (st\<lparr>assistantContent := assistantContent st @ c,
              messages := map (\<lambda>msg. if msg_id msg = assistantId
                                      then msg\<lparr>content := assistantContent st @ c\<rparr> else msg)
                              (messages st)\<rparr>, None, [])
      | Tool_call toolCall \<Rightarrow>
          (st\<lparr>currentToolCalls := currentToolCalls st @ [toolCall],
              messages := map (\<lambda>msg. if msg_id msg = assistantId
                                      then msg\<lparr>toolCalls := Some (or_empty (toolCalls msg) @ [toolCall])\<rparr>
                                      else msg)
                              (messages st)\<rparr>, None, [])
      | Tool_result result \<Rightarrow>
          (st\<lparr>currentToolResults := currentToolResults st @ [result],
              messages := map (\<lambda>msg. if msg_id msg = assistantId
                                      then msg\<lparr>toolResults := Some (or_empty (toolResults msg) @ [result])\<rparr>
                                      else msg)
                              (messages st)\<rparr>, None, [])
      | Done tcs trs \<Rightarrow>
          (st\<lparr>messages := map (\<lambda>msg. if msg_id msg = assistantId
                                      then msg\<lparr>toolCalls := Some (or_empty tcs),
                                               toolResults := Some (or_empty trs)\<rparr>
                                      else msg)
                              (messages st)\<rparr>, None, [])
      | Error e \<Rightarrow> (st, Some (Server_error e), [Error_from_server e])
      | Other t \<Rightarrow> (st, None, []))"

text \<open>The dispatch of the pass over the buffered remainder at the end of the stream.\<close>

definition apply_final_event :: "nat \<Rightarrow> 'a StreamEvent \<Rightarrow> 'a client \<Rightarrow> 'a client" where
  "apply_final_event assistantId data st =
     (case data of
        Content c \<Rightarrow>
          st\<lparr>assistantContent := assistantContent st @ c,
             messages := map (\<lambda>msg. if msg_id msg = assistantId
                                     then msg\<lparr>content := assistantContent st @ c\<rparr> else msg)
                             (messages st)\<rparr>
      | Done tcs trs \<Rightarrow>
          st\<lparr>messages := map (\<lambda>msg. if msg_id msg = assistantId
                                     then msg\<lparr>toolCalls := Some (or_empty tcs),
                                              toolResults := Some (or_empty trs)\<rparr>
                                     else msg)
                             (messages st)\<rparr>
      | _ \<Rightarrow> st)"

section \<open>The stream loop\<close>

text \<open>
  \<open>JSON.parse\<close> and the reads of the payload's fields are the parameter \<open>parse\<close>:
  \<open>None\<close> when they throw.  One iteration of \<open>for (const line of lines)\<close>:
\<close>

definition process_line ::
  "(jsstring \<Rightarrow> 'a StreamEvent option) \<Rightarrow> nat \<Rightarrow> jsstring \<Rightarrow> 'a client
     \<Rightarrow> 'a client \<times> 'a console list" where
  "process_line parse assistantId line st =
     (if trim line = [] then (st, [])
      else if startsWith line (lit ''data: '') then
        (if trim (slice line 6) = [] then (st, [])
         else case parse (trim (slice line 6)) of
                None \<Rightarrow> (st, [Error_parsing_SSE_data Decode_failure line])
              | Some data \<Rightarrow>
                  (case apply_event assistantId data st of
                     (st', None, out) \<Rightarrow> (st', Received_event data # out)
                   | (st', Some e, out) \<Rightarrow>
                       (st', Received_event data # out @ [Error_parsing_SSE_data e line])))
      else (st, []))"

definition process_final_line ::
  "(jsstring \<Rightarrow> 'a StreamEvent option) \<Rightarrow> nat \<Rightarrow> jsstring \<Rightarrow> 'a client
     \<Rightarrow> 'a client \<times> 'a console list" where
  "process_final_line parse assistantId line st =
     (if trim line = [] then (st, [])
      else if startsWith line (lit ''data: '') then
        (if trim (slice line 6) = [] then (st, [])
         else case parse (trim (slice line 6)) of
                None \<Rightarrow> (st, [Error_parsing_final_SSE_data Decode_failure])
              | Some data \<Rightarrow> (apply_final_event assistantId data st, [Received_final_event data]))
      else (st, []))"

text \<open>A \<open>for\<close> loop over lines that threads the state and collects the console output.\<close>

fun for_each ::
  "(jsstring \<Rightarrow> 's \<Rightarrow> 's \<times> 'o list) \<Rightarrow> jsstring list \<Rightarrow> 's \<Rightarrow> 's \<times> 'o list" where
  "for_each f [] st = (st, [])"
| "for_each f (line # lines) st =
     (case f line st of
        (st1, out1) \<Rightarrow>
          (case for_each f lines st1 of (st2, out2) \<Rightarrow> (st2, out1 @ out2)))"

text \<open>
  The body of the loop for a chunk whose decoded text is \<open>text\<close>: append to the buffer,
  split, keep the last piece as the new buffer, process the others.
\<close>

definition on_text ::
  "(jsstring \<Rightarrow> 'a StreamEvent option) \<Rightarrow> nat \<Rightarrow> jsstring \<Rightarrow> 'a client
     \<Rightarrow> 'a client \<times> 'a console list" where
  "on_text parse assistantId text st =
     for_each (process_line parse assistantId)
       (butlast (split_nl (buffer st @ text)))
       (st\<lparr>buffer := last (split_nl (buffer st @ text))\<rparr>)"

text \<open>The branch \<open>if (done)\<close>: one pass over the buffer when it is not empty.\<close>

definition on_done ::
  "(jsstring \<Rightarrow> 'a StreamEvent option) \<Rightarrow> nat \<Rightarrow> 'a client \<Rightarrow> 'a client \<times> 'a console list" where
  "on_done parse assistantId st =
     (if buffer st \<noteq> [] then for_each (process_final_line parse assistantId) (split_nl (buffer st)) st
      else (st, []))"

text \<open>
  The reader delivers the chunks in order and then either reports the end of the stream
  or rejects.  The loop returns the state, the message of the error it throws (if the
  reader rejected) and the console output.
\<close>

datatype stream_end = Closed | Read_rejected jsstring

fun read_loop ::
  "(jsstring \<Rightarrow> 'a StreamEvent option) \<Rightarrow> nat \<Rightarrow> 8 word list list \<Rightarrow> stream_end \<Rightarrow> 'a client
     \<Rightarrow> 'a client \<times> jsstring option \<times> 'a console list" where
  "read_loop parse assistantId [] Closed st =
     (case on_done parse assistantId st of (st', out) \<Rightarrow> (st', None, out))"
| "read_loop parse assistantId [] (Read_rejected e) st = (st, Some e, [])"
| "read_loop parse assistantId (value # rest) fin st =
     (case on_text parse assistantId (decoder_decode value) st of
        (st1, out1) \<Rightarrow>
          (case read_loop parse assistantId rest fin st1 of
             (st2, err, out2) \<Rightarrow> (st2, err, out1 @ out2)))"

section \<open>handleSubmit\<close>

text \<open>The entries of the request body: \<open>{ role: m.role, content: m.content }\<close>.\<close>

record chat_entry =
  entry_role :: role
  entry_content :: jsstring

definition request_messages :: "'a Message list \<Rightarrow> 'a Message \<Rightarrow> chat_entry list" where
  "request_messages msgs userMessage =
     map (\<lambda>m. \<lparr>entry_role = role m, entry_content = content m\<rparr>) (msgs @ [userMessage])"

text \<open>
  What \<open>fetch\<close> and the body's reader do: \<open>fetch\<close> rejects, or there is a response
  with its \<open>ok\<close> flag and its body, \<open>None\<close> when \<open>response.body\<close> is null, otherwise the
  chunks the reader delivers and how the stream ends.
\<close>

datatype response =
    Fetch_rejected jsstring
  | Http_response bool "(8 word list list \<times> stream_end) option"

text \<open>
  The \<open>try\<close> block after the request was sent.  \<open>now_assistant\<close> is the reading of
  \<open>Date.now()\<close> that becomes \<open>assistantId\<close>.  The result is the state, the message
  of the error that reaches the outer \<open>catch\<close> (if any) and the console output.
\<close>

definition try_block ::
  "(jsstring \<Rightarrow> 'a StreamEvent option) \<Rightarrow> nat \<Rightarrow> response \<Rightarrow> 'a client
     \<Rightarrow> 'a client \<times> jsstring option \<times> 'a console list" where
  "try_block parse now_assistant resp st =
     (case resp of
        Fetch_rejected e \<Rightarrow> (st, Some e, [])
      | Http_response ok body \<Rightarrow>
          if \<not> ok then (st, Some (lit ''Failed to get response''), [])
          else
            let assistantMessage =
                  \<lparr>msg_id = now_assistant, role = Assistant, content = [],
                   toolCalls = Some [], toolResults = Some []\<rparr>;
                st1 = st\<lparr>assistantContent := [],
                         messages := messages st @ [assistantMessage]\<rparr>
            in (case body of
                  None \<Rightarrow> (st1, None, [Response_body_not_readable])
                | Some (chunks, fin) \<Rightarrow>
                    read_loop parse now_assistant chunks fin (st1\<lparr>buffer := []\<rparr>)))"

text \<open>
  \<open>handleSubmit\<close> with the three readings of the clock it may take.  The result is the
  state after \<open>finally\<close>, the \<open>messages\<close> of the request body (\<open>None\<close> when the guard
  returns before any request) and the console output.
\<close>

definition handleSubmit ::
  "(jsstring \<Rightarrow> 'a StreamEvent option) \<Rightarrow> nat \<Rightarrow> nat \<Rightarrow> nat \<Rightarrow> response \<Rightarrow> 'a client
     \<Rightarrow> 'a client \<times> chat_entry list option \<times> 'a console list" where
  "handleSubmit parse now_user now_assistant now_error resp st =
     (if trim (input st) = [] \<or> isLoading st then (st, None, [])
      else
        let userMessage =
              \<lparr>msg_id = now_user, role = User, content = input st,
               toolCalls = None, toolResults = None\<rparr>;
            st1 = st\<lparr>messages := messages st @ [userMessage], input := [], isLoading := True,
                     currentToolCalls := [], currentToolResults := []\<rparr>
        in case try_block parse now_assistant resp st1 of
             (st2, err, out) \<Rightarrow>
               ((case err of
                   None \<Rightarrow> st2
                 | Some e \<Rightarrow>
                     st2\<lparr>messages := messages st2 @
                           [\<lparr>msg_id = now_error, role = Assistant, content = lit ''Error: '' @ e,
                             toolCalls = None, toolResults = None\<rparr>]\<rparr>)
                  \<lparr>isLoading := False, currentToolCalls := [], currentToolResults := []\<rparr>,
                Some (request_messages (messages st) userMessage),
                out))"

section \<open>MessageList: which tables are shown, and their rows\<close>

text \<open>
  The most recent user message before \<open>message\<close>: the user messages whose id string is
  \<open><=\<close> the id string of \<open>message\<close>, sorted by descending numeric id (the sort is
  stable), first element.
\<close>

definition find_user_message :: "'a Message list \<Rightarrow> 'a Message \<Rightarrow> 'a Message option" where
  "find_user_message msgs message =
     (case sort_key (\<lambda>m. - int (msg_id m))
             (filter (\<lambda>m. role m = User \<and>
                           js_string_le (toString (msg_id m)) (toString (msg_id message))) msgs) of
        [] \<Rightarrow> None
      | m # _ \<Rightarrow> Some m)"

text \<open>
  \<open>userMessage?.content?.toLowerCase() || ""\<close>; the platform's \<open>toLowerCase\<close> is a
  parameter.
\<close>

definition userContent ::
  "(jsstring \<Rightarrow> jsstring) \<Rightarrow> 'a Message list \<Rightarrow> 'a Message \<Rightarrow> jsstring" where
  "userContent toLowerCase msgs message =
     (case find_user_message msgs message of None \<Rightarrow> [] | Some m \<Rightarrow> toLowerCase (content m))"

definition askedForCommits :: "jsstring \<Rightarrow> bool" where
  "askedForCommits uc \<longleftrightarrow>
     js_includes uc (lit ''commit'') \<or> js_includes uc (lit ''commit history'') \<or>
     js_includes uc (lit ''commit frequency'')"

definition askedForPullRequests :: "jsstring \<Rightarrow> bool" where
  "askedForPullRequests uc \<longleftrightarrow>
     js_includes uc (lit ''pull request'') \<or> js_includes uc (lit ''pr'') \<or>
     js_includes uc (lit ''pull requests'')"

definition askedForIssues :: "jsstring \<Rightarrow> bool" where
  "askedForIssues uc \<longleftrightarrow> js_includes uc (lit ''issue'') \<and> \<not> js_includes uc (lit ''pull request'')"

definition isGeneralAnalysis :: "jsstring \<Rightarrow> bool" where
  "isGeneralAnalysis uc \<longleftrightarrow>
     js_includes uc (lit ''analyze'') \<or> js_includes uc (lit ''show me'') \<or>
     js_includes uc (lit ''repository info'') \<or> js_includes uc (lit ''repository data'')"

text \<open>
  \<open>toolResults.some((r) => r.f && Array.isArray(r.f) && r.f.length > 0)\<close> for a field
  \<open>f\<close> among \<open>commits\<close>, \<open>issues\<close> and \<open>pullRequests\<close>.
\<close>

definition has_data :: "('a ToolResult \<Rightarrow> 'a list option) \<Rightarrow> 'a ToolResult list \<Rightarrow> bool" where
  "has_data f trs = list_ex (\<lambda>r. case f r of None \<Rightarrow> False | Some xs \<Rightarrow> 0 < length xs) trs"

text \<open>
  A rendered table: the number in its heading and the rows of its body (\<open>None\<close> where
  the source returns \<open>null\<close>).  The array is that of the first tool result that has the
  field; a row is made from an entry and its index.
\<close>

record 'r data_table =
  heading_count :: nat
  body_rows :: "'r list option"

definition first_with :: "('a ToolResult \<Rightarrow> 'a list option) \<Rightarrow> 'a ToolResult list \<Rightarrow> 'a list option" where
  "first_with f trs = (case find (\<lambda>r. f r \<noteq> None) trs of None \<Rightarrow> None | Some r \<Rightarrow> f r)"

definition render_table ::
  "('a ToolResult \<Rightarrow> 'a list option) \<Rightarrow> ('a \<Rightarrow> nat \<Rightarrow> 'r) \<Rightarrow> 'a ToolResult list \<Rightarrow> 'r data_table" where
  "render_table f row trs =
     \<lparr>heading_count = (case first_with f trs of None \<Rightarrow> 0 | Some xs \<Rightarrow> length xs),
      body_rows =
        (case first_with f trs of
           None \<Rightarrow> None
         | Some xs \<Rightarrow> Some (map (\<lambda>(x, idx). row x idx) (zip (take 50 xs) [0..<length (take 50 xs)])))\<rparr>"

definition commits_table ::
  "(jsstring \<Rightarrow> jsstring) \<Rightarrow> ('a \<Rightarrow> nat \<Rightarrow> 'r) \<Rightarrow> 'a Message list \<Rightarrow> 'a Message \<Rightarrow> 'a ToolResult list
     \<Rightarrow> 'r data_table option" where
  "commits_table toLowerCase row msgs message trs =
     (let uc = userContent toLowerCase msgs message;
          shouldShowCommits =
            (has_data commits trs \<and>
             (askedForCommits uc \<or>
              (isGeneralAnalysis uc \<and> \<not> askedForPullRequests uc \<and> \<not> askedForIssues uc)))
      in if shouldShowCommits then Some (render_table commits row trs) else None)"

definition issues_table ::
  "(jsstring \<Rightarrow> jsstring) \<Rightarrow> ('a \<Rightarrow> nat \<Rightarrow> 'r) \<Rightarrow> 'a Message list \<Rightarrow> 'a Message \<Rightarrow> 'a ToolResult list
     \<Rightarrow> 'r data_table option" where
  "issues_table toLowerCase row msgs message trs =
     (if \<not> has_data issues trs then None
      else
        let uc = userContent toLowerCase msgs message;
            shouldShowIssues =
              (askedForIssues uc \<or> (isGeneralAnalysis uc \<and> \<not> askedForPullRequests uc))
        in if shouldShowIssues then Some (render_table issues row trs) else None)"

definition pull_requests_table ::
  "(jsstring \<Rightarrow> jsstring) \<Rightarrow> ('a \<Rightarrow> nat \<Rightarrow> 'r) \<Rightarrow> 'a Message list \<Rightarrow> 'a Message \<Rightarrow> 'a ToolResult list
     \<Rightarrow> 'r data_table option" where
  "pull_requests_table toLowerCase row msgs message trs =
     (if \<not> has_data pullRequests trs then None
      else
        let uc = userContent toLowerCase msgs message;
            shouldShowPullRequests =
              (askedForPullRequests uc \<or> (isGeneralAnalysis uc \<and> \<not> askedForIssues uc))
        in if shouldShowPullRequests then Some (render_table pullRequests row trs) else None)"


section \<open>Sample inputs\<close>

text \<open>
  A fragment of \<open>JSON.parse\<close> for the concrete streams below: it decodes the payloads
  \<open>{"type":"content","content":"t"}\<close> and \<open>{"type":"error","error":"t"}\<close> for a text
  \<open>t\<close> without quote, backslash and control characters, and two fixed payloads;
  everything else is rejected.
\<close>

definition plain_text :: "jsstring \<Rightarrow> bool" where
  "plain_text t = list_all (\<lambda>c. 32 \<le> c \<and> c \<noteq> 34 \<and> c \<noteq> 92) t"

definition between :: "jsstring \<Rightarrow> jsstring \<Rightarrow> jsstring \<Rightarrow> jsstring option" where
  "between pre suf s =
     (if length pre + length suf \<le> length s \<and> take (length pre) s = pre \<and>
         drop (length s - length suf) s = suf
      then Some (take (length s - length pre - length suf) (drop (length pre) s))
      else None)"

definition sample_tool_call :: ToolCall where
  "sample_tool_call =
     \<lparr>call_id = lit ''c1'', function_name = lit ''get_issues'', function_arguments = lit ''{}''\<rparr>"

definition sample_parse :: "jsstring \<Rightarrow> 'a StreamEvent option" where
  \<open>sample_parse s =
     (case between (lit ''{"type":"content","content":"'') (lit ''"}'') s of
        Some t \<Rightarrow> if plain_text t then Some (Content t) else None
      | None \<Rightarrow>
     (case between (lit ''{"type":"error","error":"'') (lit ''"}'') s of
        Some t \<Rightarrow> if plain_text t then Some (Error t) else None
      | None \<Rightarrow>
          if s = lit ''{"type":"done"}'' then Some (Done None None)
          else if s = lit ''{"type":"tool_call","toolCall":{"id":"c1","function":{"name":"get_issues","arguments":"{}"}}}''
          then Some (Tool_call sample_tool_call)
          else None))\<close>

text \<open>\<open>toLowerCase\<close> on ASCII text.\<close>

definition ascii_lower :: "jsstring \<Rightarrow> jsstring" where
  "ascii_lower s = map (\<lambda>c. if 65 \<le> c \<and> c \<le> 90 then c + 32 else c) s"

text \<open>The bytes of an ASCII text, and a client that is idle with an empty conversation.\<close>

abbreviation ascii :: "string \<Rightarrow> 8 word list" where
  "ascii s \<equiv> map of_char s"

definition idle_client :: "jsstring \<Rightarrow> 'a client" where
  "idle_client text =
     \<lparr>messages = [], input = text, isLoading = False, currentToolCalls = [],
      currentToolResults = [], assistantContent = [], buffer = []\<rparr>"

text \<open>A conversation in progress: the assistant message has one tool call so far.\<close>

definition sample_conversation :: "'a client" where
  "sample_conversation =
     \<lparr>messages =
        [\<lparr>msg_id = 1, role = User, content = lit ''list issues'',
          toolCalls = None, toolResults = None\<rparr>,
         \<lparr>msg_id = 2, role = Assistant, content = lit ''On it'',
          toolCalls = Some [sample_tool_call], toolResults = Some []\<rparr>],
      input = lit ''and the pull requests'', isLoading = False, currentToolCalls = [],
      currentToolResults = [], assistantContent = lit ''On it'', buffer = []\<rparr>"

text \<open>
  A question about issues and commits, and an assistant message whose tool result has
  two issues and sixty commits.
\<close>

definition sample_question :: "nat Message" where
  "sample_question =
     \<lparr>msg_id = 1, role = User, content = lit ''List Issues and commits'',
      toolCalls = None, toolResults = None\<rparr>"

definition sample_result :: "nat ToolResult" where
  "sample_result =
     \<lparr>screenshot = None, url = None, repository = None, commits = Some (replicate 60 0),
      issues = Some [7, 8], pullRequests = None\<rparr>"

definition sample_answer :: "nat Message" where
  "sample_answer =
     \<lparr>msg_id = 2, role = Assistant, content = lit ''Here they are'',
      toolCalls = Some [], toolResults = Some [sample_result]\<rparr>"



section \<open>Statements compared with the code\<close>

text \<open>
  A record the client cannot decode: a line that starts with the marker and whose
  trimmed payload is not empty and makes \<open>parse\<close> throw.
\<close>

definition malformed_record :: "(jsstring \<Rightarrow> 'a StreamEvent option) \<Rightarrow> jsstring \<Rightarrow> bool" where
  "malformed_record parse line \<longleftrightarrow>
     startsWith line (lit ''data: '') \<and> trim (slice line 6) \<noteq> [] \<and>
     parse (trim (slice line 6)) = None"


text \<open>
  What the specification says of a table over the array \<open>xs\<close>: the heading reports
  the full length, and the rows are made, in order, from the first 50 entries.
\<close>

definition shows_first_fifty :: "('a \<Rightarrow> nat \<Rightarrow> 'r) \<Rightarrow> 'a list \<Rightarrow> 'r data_table \<Rightarrow> bool" where
  "shows_first_fifty row xs t \<longleftrightarrow>
     heading_count t = length xs \<and>
     (case body_rows t of
        None \<Rightarrow> False
      | Some rows \<Rightarrow>
          length rows = min 50 (length xs) \<and>
          list_all (\<lambda>i. rows ! i = row (xs ! i) i) [0..<length rows])"

section \<open>Splitting into lines and the buffer\<close>

lemma split_nl_not_Nil [simp]: "split_nl s \<noteq> []"
  by (induction s) (auto split: list.splits)

lemma split_nl_append:
  "split_nl (xs @ ys) = butlast (split_nl xs) @ split_nl (last (split_nl xs) @ ys)"
proof (induction xs)
  case Nil
  then show ?case by simp
next
  case (Cons c cs)
  show ?case
  proof (cases "c = 10")
    case True
    then show ?thesis using Cons.IH by simp
  next
    case False
    obtain p ps where sp: "split_nl cs = p # ps"
      by (cases "split_nl cs") auto
    show ?thesis
    proof (cases ps)
      case Nil
      then show ?thesis using False sp Cons.IH by simp
    next
      case (Cons q qs)
      then show ?thesis using False sp Cons.IH by simp
    qed
  qed
qed

lemma split_nl_no_newline: "10 \<notin> set s \<Longrightarrow> split_nl s = [s]"
  by (induction s) auto

lemma split_nl_pieces: "l \<in> set (split_nl s) \<Longrightarrow> 10 \<notin> set l"
  by (induction s arbitrary: l) (auto split: if_splits list.splits)

lemma last_split_nl: "10 \<notin> set (last (split_nl s))"
  using split_nl_pieces [OF last_in_set [OF split_nl_not_Nil]] .

lemma for_each_append:
  "for_each f (xs @ ys) st =
     (case for_each f xs st of
        (st1, out1) \<Rightarrow> (case for_each f ys st1 of (st2, out2) \<Rightarrow> (st2, out1 @ out2)))"
  by (induction xs arbitrary: st) (auto split: prod.splits)

lemma apply_event_buffer:
  "apply_event aid ev (st\<lparr>buffer := b\<rparr>) =
     (case apply_event aid ev st of (st', r) \<Rightarrow> (st'\<lparr>buffer := b\<rparr>, r))"
  by (cases ev) (simp_all add: apply_event_def)

lemma process_line_buffer:
  "process_line P aid l (st\<lparr>buffer := b\<rparr>) =
     (case process_line P aid l st of (st', out) \<Rightarrow> (st'\<lparr>buffer := b\<rparr>, out))"
  by (auto simp: process_line_def apply_event_buffer split: option.splits prod.splits)

lemma for_each_process_line_buffer:
  "for_each (process_line P aid) ls (st\<lparr>buffer := b\<rparr>) =
     (case for_each (process_line P aid) ls st of (st', out) \<Rightarrow> (st'\<lparr>buffer := b\<rparr>, out))"
  by (induction ls arbitrary: st) (auto simp: process_line_buffer split: prod.splits)

lemma for_each_process_line_buffer_eq:
  "buffer (fst (for_each (process_line P aid) ls st)) = buffer st"
proof -
  have "buffer (fst (process_line P aid l s)) = buffer s" for l s
    by (auto simp: process_line_def apply_event_def split: option.splits prod.splits StreamEvent.splits)
  then show ?thesis
    by (induction ls arbitrary: st) (auto split: prod.splits, metis fst_conv)
qed

lemma on_text_buffer: "buffer (fst (on_text P aid t st)) = last (split_nl (buffer st @ t))"
  by (simp add: on_text_def for_each_process_line_buffer_eq)

lemma on_text_Nil: "10 \<notin> set (buffer st) \<Longrightarrow> on_text P aid [] st = (st, [])"
  by (simp add: on_text_def split_nl_no_newline)

lemma on_text_append:
  "on_text P aid (t1 @ t2) st =
     (case on_text P aid t1 st of
        (st1, out1) \<Rightarrow> (case on_text P aid t2 st1 of (st2, out2) \<Rightarrow> (st2, out1 @ out2)))"
proof -
  let ?b1 = "last (split_nl (buffer st @ t1))"
  let ?l1 = "butlast (split_nl (buffer st @ t1))"
  have sp: "split_nl (buffer st @ t1 @ t2) = ?l1 @ split_nl (?b1 @ t2)"
    using split_nl_append [of "buffer st @ t1" t2] by simp
  have bl: "butlast (split_nl (buffer st @ t1 @ t2)) = ?l1 @ butlast (split_nl (?b1 @ t2))"
    by (simp add: sp butlast_append)
  have la: "last (split_nl (buffer st @ t1 @ t2)) = last (split_nl (?b1 @ t2))"
    by (simp add: sp)
  obtain s1 o1 where r1: "for_each (process_line P aid) ?l1 st = (s1, o1)"
    by (cases "for_each (process_line P aid) ?l1 st")
  show ?thesis
    by (simp add: on_text_def bl la for_each_append for_each_process_line_buffer r1
          split: prod.splits)
qed

lemma read_loop_text:
  "10 \<notin> set (buffer st) \<Longrightarrow>
   read_loop P aid cs fin st =
     (case on_text P aid (concat (map decoder_decode cs)) st of
        (st1, out1) \<Rightarrow>
          (case read_loop P aid [] fin st1 of (st2, err, out2) \<Rightarrow> (st2, err, out1 @ out2)))"
proof (induction cs arbitrary: st)
  case Nil
  then show ?case by (simp add: on_text_Nil split: prod.splits)
next
  case (Cons c cs)
  obtain s1 o1 where r1: "on_text P aid (decoder_decode c) st = (s1, o1)"
    by (cases "on_text P aid (decoder_decode c) st")
  have "buffer s1 = last (split_nl (buffer st @ decoder_decode c))"
    using on_text_buffer [of P aid "decoder_decode c" st] r1 by simp
  then have "10 \<notin> set (buffer s1)" by (simp add: last_split_nl)
  from Cons.IH [OF this] show ?case
    by (simp add: on_text_append r1 split: prod.splits)
qed


section \<open>Lines that carry a record\<close>

lemma trim_eq_Nil_iff: "trim s = [] \<longleftrightarrow> (\<forall>c\<in>set s. is_js_space c)"
proof
  assume "trim s = []"
  then have a: "\<forall>c\<in>set (dropWhile is_js_space s). is_js_space c"
    by (simp add: trim_def dropWhile_eq_Nil_conv)
  have "dropWhile is_js_space s = []"
  proof (rule ccontr)
    assume n: "dropWhile is_js_space s \<noteq> []"
    then have "\<not> is_js_space (hd (dropWhile is_js_space s))"
      by (rule hd_dropWhile)
    moreover have "hd (dropWhile is_js_space s) \<in> set (dropWhile is_js_space s)"
      using n by simp
    ultimately show False using a by blast
  qed
  then show "\<forall>c\<in>set s. is_js_space c"
    by (simp add: dropWhile_eq_Nil_conv)
next
  assume "\<forall>c\<in>set s. is_js_space c"
  then show "trim s = []"
    by (auto simp: trim_def dropWhile_eq_Nil_conv dest: set_dropWhileD)
qed

lemma marker_not_blank:
  assumes "startsWith line (lit ''data: '')"
  shows "trim line \<noteq> []"
proof -
  have e: "take (length (lit ''data: '')) line = lit ''data: ''"
    using assms by (simp only: startsWith_def)
  have "100 \<in> set (lit ''data: '')" by simp
  then have "100 \<in> set (take (length (lit ''data: '')) line)" by (simp only: e)
  then have "100 \<in> set line" by (rule in_set_takeD)
  moreover have "\<not> is_js_space 100" by (simp add: is_js_space_def)
  ultimately show ?thesis by (auto simp: trim_eq_Nil_iff)
qed

lemma process_line_decoded:
  assumes "startsWith line (lit ''data: '')" and "trim (slice line 6) \<noteq> []"
    and "parse (trim (slice line 6)) = Some data"
  shows "process_line parse aid line st =
     (case apply_event aid data st of
        (st', None, out) \<Rightarrow> (st', Received_event data # out)
      | (st', Some e, out) \<Rightarrow> (st', Received_event data # out @ [Error_parsing_SSE_data e line]))"
  using assms marker_not_blank [OF assms(1)] by (simp add: process_line_def)

lemma process_final_line_decoded:
  assumes "startsWith line (lit ''data: '')" and "trim (slice line 6) \<noteq> []"
    and "parse (trim (slice line 6)) = Some data"
  shows "process_final_line parse aid line st =
     (apply_final_event aid data st, [Received_final_event data])"
  using assms marker_not_blank [OF assms(1)] by (simp add: process_final_line_def)

lemma process_line_malformed:
  assumes "malformed_record parse bad"
  shows "process_line parse aid bad st = (st, [Error_parsing_SSE_data Decode_failure bad])"
  using assms marker_not_blank [of bad] by (simp add: process_line_def malformed_record_def)

lemma process_final_line_malformed:
  assumes "malformed_record parse bad"
  shows "process_final_line parse aid bad st = (st, [Error_parsing_final_SSE_data Decode_failure])"
  using assms marker_not_blank [of bad] by (simp add: process_final_line_def malformed_record_def)

lemmas run_defs = handleSubmit_def try_block_def on_text_def on_done_def process_line_def
  process_final_line_def apply_event_def apply_final_event_def or_empty_def
  request_messages_def idle_client_def
lemmas string_defs = trim_def is_js_space_def startsWith_def slice_def
lemmas decoder_defs = decoder_decode_def utf8_lead_def strip_bom_def utf16_units_def
lemmas sample_defs = sample_parse_def between_def plain_text_def sample_tool_call_def

section \<open>Replaying a recorded stream\<close>

text \<open>
  C7.  The stream loop is deterministic: two replays from the same initial state, the
  buffer empty as at the start of the loop, of the same recorded stream end in the same
  state with the same console output and the same error.  The same stream means the same
  byte chunks or, more generally, chunks that decode to the same text of records.
\<close>

theorem replay_yields_same_state:
  assumes "buffer st = []"
    and "concat (map decoder_decode chunks1) = concat (map decoder_decode chunks2)"
  shows "read_loop parse assistantId chunks1 fin st = read_loop parse assistantId chunks2 fin st"
proof -
  have "10 \<notin> set (buffer st)" using assms(1) by simp
  then show ?thesis using assms(2) by (simp add: read_loop_text)
qed

theorem replay_yields_same_state_witness:
  \<open>buffer (idle_client [] :: unit client) = [] \<and>
   concat (map decoder_decode [ascii ''data: {"type":"done"}'' @ [10]]) =
   concat (map decoder_decode [ascii ''data: {"ty'', ascii ''pe":"done"}'' @ [10]]) \<and>
   read_loop sample_parse 2 [ascii ''data: {"type":"done"}'' @ [10]] Closed (idle_client [] :: unit client) =
   read_loop sample_parse 2 [ascii ''data: {"ty'', ascii ''pe":"done"}'' @ [10]] Closed (idle_client [])\<close>
proof -
  have b: "buffer (idle_client [] :: unit client) = []"
    by (simp add: idle_client_def)
  have t: \<open>concat (map decoder_decode [ascii ''data: {"type":"done"}'' @ [10]]) =
      concat (map decoder_decode [ascii ''data: {"ty'', ascii ''pe":"done"}'' @ [10]])\<close>
    by (simp add: decoder_decode_def utf8_lead_def strip_bom_def utf16_units_def)
  show ?thesis
    using b t replay_yields_same_state [OF b t, of sample_parse 2 Closed] by simp
qed

section \<open>The done event\<close>

text \<open>
  C4.  A line whose payload decodes to a \<open>done\<close> event sets \<open>toolCalls\<close> and
  \<open>toolResults\<close> of every message with the id \<open>assistantId\<close> to the lists the event
  carries, the empty list where the event has no such field, whatever the message held
  before; this is so in the loop over the lines of a chunk and in the pass over the
  buffered remainder at the end of the stream.
\<close>

theorem done_event_sets_full_lists:
  assumes "startsWith line (lit ''data: '')" and "trim (slice line 6) \<noteq> []"
    and "parse (trim (slice line 6)) = Some (Done tcs trs)"
  shows "messages (fst (process_line parse assistantId line st)) =
           map (\<lambda>msg. if msg_id msg = assistantId
                       then msg\<lparr>toolCalls := Some (case tcs of None \<Rightarrow> [] | Some xs \<Rightarrow> xs),
                                toolResults := Some (case trs of None \<Rightarrow> [] | Some xs \<Rightarrow> xs)\<rparr>
                       else msg) (messages st) \<and>
         messages (fst (process_final_line parse assistantId line st)) =
           map (\<lambda>msg. if msg_id msg = assistantId
                       then msg\<lparr>toolCalls := Some (case tcs of None \<Rightarrow> [] | Some xs \<Rightarrow> xs),
                                toolResults := Some (case trs of None \<Rightarrow> [] | Some xs \<Rightarrow> xs)\<rparr>
                       else msg) (messages st)"
  using assms
  by (simp add: process_line_decoded process_final_line_decoded
        apply_event_def apply_final_event_def or_empty_def)

theorem done_event_sets_full_lists_witness:
  \<open>startsWith (lit ''data: {"type":"done"}'') (lit ''data: '') \<and>
   trim (slice (lit ''data: {"type":"done"}'') 6) \<noteq> [] \<and>
   (sample_parse (trim (slice (lit ''data: {"type":"done"}'') 6)) :: unit StreamEvent option) =
     Some (Done None None) \<and>
   map toolCalls (messages (fst (process_line sample_parse 2 (lit ''data: {"type":"done"}'')
     (sample_conversation :: unit client)))) = [None, Some []] \<and>
   map toolCalls (messages (fst (process_final_line sample_parse 2 (lit ''data: {"type":"done"}'')
     (sample_conversation :: unit client)))) = [None, Some []]\<close>
proof -
  have h1: \<open>startsWith (lit ''data: {"type":"done"}'') (lit ''data: '')\<close>
    by (simp add: startsWith_def)
  have h2: \<open>trim (slice (lit ''data: {"type":"done"}'') 6) \<noteq> []\<close>
    by (simp add: string_defs)
  have h3: \<open>(sample_parse (trim (slice (lit ''data: {"type":"done"}'') 6)) :: unit StreamEvent option) =
      Some (Done None None)\<close>
    by (simp add: string_defs sample_defs)
  have m: "messages (sample_conversation :: unit client) =
      [\<lparr>msg_id = 1, role = User, content = lit ''list issues'',
        toolCalls = None, toolResults = None\<rparr>,
       \<lparr>msg_id = 2, role = Assistant, content = lit ''On it'',
        toolCalls = Some [sample_tool_call], toolResults = Some []\<rparr>]"
    by (simp add: sample_conversation_def)
  show ?thesis
    using h1 h2 h3
      done_event_sets_full_lists
        [where parse = "sample_parse :: jsstring \<Rightarrow> unit StreamEvent option"
           and assistantId = 2 and st = sample_conversation, OF h1 h2 h3]
    by (simp add: m)
qed

section \<open>The frame of an event\<close>




section \<open>The request\<close>

text \<open>
  C6.  When \<open>handleSubmit\<close> passes its guard, the \<open>messages\<close> of the request body are
  the role and the content of every prior message, in order, followed by the role and
  the content of the new user message; an entry has no other field.
\<close>

theorem request_has_role_and_content_only:
  assumes "trim (input st) \<noteq> []" and "\<not> isLoading st"
  shows "fst (snd (handleSubmit parse now_user now_assistant now_error resp st)) =
           Some (map (\<lambda>m. \<lparr>entry_role = role m, entry_content = content m\<rparr>) (messages st) @
                 [\<lparr>entry_role = User, entry_content = input st\<rparr>])"
  using assms by (simp add: handleSubmit_def request_messages_def split: prod.splits)

theorem request_has_role_and_content_only_witness:
  "trim (input (sample_conversation :: unit client)) \<noteq> [] \<and>
   \<not> isLoading (sample_conversation :: unit client) \<and>
   fst (snd (handleSubmit sample_parse 3 4 5 (Fetch_rejected (lit ''offline''))
     (sample_conversation :: unit client))) =
     Some [\<lparr>entry_role = User, entry_content = lit ''list issues''\<rparr>,
           \<lparr>entry_role = Assistant, entry_content = lit ''On it''\<rparr>,
           \<lparr>entry_role = User, entry_content = lit ''and the pull requests''\<rparr>]"
proof -
  have h1: "trim (input (sample_conversation :: unit client)) \<noteq> []"
    by (simp add: sample_conversation_def string_defs)
  have h2: "\<not> isLoading (sample_conversation :: unit client)"
    by (simp add: sample_conversation_def)
  show ?thesis
    using h1 h2
      request_has_role_and_content_only
        [where parse = "sample_parse :: jsstring \<Rightarrow> unit StreamEvent option"
           and now_user = 3 and now_assistant = 4 and now_error = 5
           and resp = "Fetch_rejected (lit ''offline'')", OF h1 h2]
    by (simp add: sample_conversation_def)
qed

section \<open>A record that cannot be decoded\<close>

lemma split_nl_terminated: "10 \<notin> set x \<Longrightarrow> split_nl (x @ [10]) = [x, []]"
  by (induction x) auto

lemma last_split_nl_complete:
  assumes "pre = [] \<or> last pre = 10"
  shows "last (split_nl pre) = []"
proof (cases "pre = []")
  case True
  then show ?thesis by simp
next
  case False
  then have "pre = butlast pre @ [10]"
    using assms by (metis append_butlast_last_id)
  then have "split_nl pre =
      butlast (split_nl (butlast pre)) @ split_nl (last (split_nl (butlast pre)) @ [10])"
    using split_nl_append [of "butlast pre" "[10]"] by simp
  then show ?thesis
    by (simp add: split_nl_terminated last_split_nl)
qed

lemma on_text_malformed:
  assumes "malformed_record parse bad" and "10 \<notin> set bad" and "buffer st = []"
  shows "on_text parse aid (bad @ [10]) st = (st, [Error_parsing_SSE_data Decode_failure bad])"
  using assms
  by (simp add: on_text_def split_nl_terminated process_line_malformed process_line_buffer)

text \<open>
  C3.  Take a stream whose text has, after complete lines \<open>pre\<close>, a line \<open>bad\<close> that
  carries the marker and a payload the client cannot decode, and then the text
  \<open>post\<close>; take the stream without that line.  Whatever the chunks, the loop ends in
  the same state and with the same error for both, and the console output of the first
  is that of the second with the report of the failure inserted: the record is reported
  and skipped, and every other record is processed as without it.
\<close>

theorem malformed_record_is_skipped:
  assumes "malformed_record parse bad" and "10 \<notin> set bad"
    and "pre = [] \<or> last pre = 10"
    and "buffer st = []"
    and "concat (map decoder_decode chunks) = pre @ bad @ [10] @ post"
    and "concat (map decoder_decode chunks') = pre @ post"
  shows "\<exists>st' err out1 out2.
           read_loop parse assistantId chunks fin st =
             (st', err, out1 @ [Error_parsing_SSE_data Decode_failure bad] @ out2) \<and>
           read_loop parse assistantId chunks' fin st = (st', err, out1 @ out2)"
proof -
  have nb: "10 \<notin> set (buffer st)" using assms(4) by simp
  obtain s1 o1 where r1: "on_text parse assistantId pre st = (s1, o1)"
    by (cases "on_text parse assistantId pre st")
  have "buffer s1 = last (split_nl (buffer st @ pre))"
    using on_text_buffer [of parse assistantId pre st] r1 by simp
  then have b1: "buffer s1 = []"
    using assms(3,4) by (simp add: last_split_nl_complete)
  have r2: "on_text parse assistantId (bad @ [10]) s1 =
      (s1, [Error_parsing_SSE_data Decode_failure bad])"
    using on_text_malformed [OF assms(1,2) b1] .
  obtain s3 o3 where r3: "on_text parse assistantId post s1 = (s3, o3)"
    by (cases "on_text parse assistantId post s1")
  obtain s4 err o4 where r4: "read_loop parse assistantId [] fin s3 = (s4, err, o4)"
    by (cases "read_loop parse assistantId [] fin s3")
  have w: "on_text parse assistantId (pre @ bad @ [10] @ post) st =
      (s3, o1 @ [Error_parsing_SSE_data Decode_failure bad] @ o3)"
    using on_text_append [of parse assistantId pre "(bad @ [10]) @ post" st]
      on_text_append [of parse assistantId "bad @ [10]" post s1]
    by (simp add: r1 r2 r3)
  have wo: "on_text parse assistantId (pre @ post) st = (s3, o1 @ o3)"
    by (simp add: on_text_append r1 r3)
  have "read_loop parse assistantId chunks fin st =
      (s4, err, o1 @ [Error_parsing_SSE_data Decode_failure bad] @ (o3 @ o4))"
    using w r4 by (simp add: read_loop_text [OF nb] assms(5))
  moreover have "read_loop parse assistantId chunks' fin st = (s4, err, o1 @ (o3 @ o4))"
    using wo r4 by (simp add: read_loop_text [OF nb] assms(6))
  ultimately show ?thesis by blast
qed

theorem malformed_record_is_skipped_witness:
  \<open>malformed_record (sample_parse :: jsstring \<Rightarrow> unit StreamEvent option) (lit ''data: {nope'') \<and>
   10 \<notin> set (lit ''data: {nope'') \<and>
   last (lit ''data: {"type":"done"}'' @ [10]) = 10 \<and>
   buffer (idle_client [] :: unit client) = [] \<and>
   concat (map decoder_decode
     [ascii ''data: {"type":"done"}'' @ [10] @ ascii ''data: {n'',
      ascii ''ope'' @ [10] @ ascii ''data: {"type":"done"}'' @ [10]]) =
     (lit ''data: {"type":"done"}'' @ [10]) @ lit ''data: {nope'' @ [10] @
     (lit ''data: {"type":"done"}'' @ [10]) \<and>
   concat (map decoder_decode
     [ascii ''data: {"type":"done"}'' @ [10] @ ascii ''data: {"type":"done"}'' @ [10]]) =
     (lit ''data: {"type":"done"}'' @ [10]) @ (lit ''data: {"type":"done"}'' @ [10]) \<and>
   (\<exists>st' err out1 out2.
      read_loop sample_parse 2
        [ascii ''data: {"type":"done"}'' @ [10] @ ascii ''data: {n'',
         ascii ''ope'' @ [10] @ ascii ''data: {"type":"done"}'' @ [10]]
        Closed (idle_client [] :: unit client) =
        (st', err, out1 @ [Error_parsing_SSE_data Decode_failure (lit ''data: {nope'')] @ out2) \<and>
      read_loop sample_parse 2
        [ascii ''data: {"type":"done"}'' @ [10] @ ascii ''data: {"type":"done"}'' @ [10]]
        Closed (idle_client []) = (st', err, out1 @ out2))\<close>
proof -
  have h1: \<open>malformed_record (sample_parse :: jsstring \<Rightarrow> unit StreamEvent option)
      (lit ''data: {nope'')\<close>
    by (simp add: malformed_record_def string_defs sample_defs)
  have h2: \<open>10 \<notin> set (lit ''data: {nope'')\<close> by simp
  have h3: \<open>lit ''data: {"type":"done"}'' @ [10] = [] \<or>
      last (lit ''data: {"type":"done"}'' @ [10]) = 10\<close> by simp
  have h4: "buffer (idle_client [] :: unit client) = []"
    by (simp add: idle_client_def)
  have h5: \<open>concat (map decoder_decode
     [ascii ''data: {"type":"done"}'' @ [10] @ ascii ''data: {n'',
      ascii ''ope'' @ [10] @ ascii ''data: {"type":"done"}'' @ [10]]) =
     (lit ''data: {"type":"done"}'' @ [10]) @ lit ''data: {nope'' @ [10] @
     (lit ''data: {"type":"done"}'' @ [10])\<close>
    by (simp add: decoder_defs)
  have h6: \<open>concat (map decoder_decode
     [ascii ''data: {"type":"done"}'' @ [10] @ ascii ''data: {"type":"done"}'' @ [10]]) =
     (lit ''data: {"type":"done"}'' @ [10]) @ (lit ''data: {"type":"done"}'' @ [10])\<close>
    by (simp add: decoder_defs)
  have h3': \<open>last (lit ''data: {"type":"done"}'' @ [10]) = 10\<close> by simp
  show ?thesis
    using h1 h2 h3' h4 h5 h6
      malformed_record_is_skipped [OF h1 h2 h3 h4 h5 h6, of 2 Closed]
    by blast
qed

text \<open>
  The same for a record that is the unterminated end of the stream: the pass over the
  buffered remainder reports it, and nothing but the buffer differs.
\<close>

lemma malformed_final_record_is_skipped:
  assumes "malformed_record parse bad" and "10 \<notin> set bad"
    and "pre = [] \<or> last pre = 10"
    and "buffer st = []"
    and "concat (map decoder_decode chunks) = pre @ bad"
    and "concat (map decoder_decode chunks') = pre"
  shows "\<exists>st' out.
           read_loop parse assistantId chunks Closed st =
             (st'\<lparr>buffer := bad\<rparr>, None, out @ [Error_parsing_final_SSE_data Decode_failure]) \<and>
           read_loop parse assistantId chunks' Closed st = (st', None, out)"
proof -
  have nb: "10 \<notin> set (buffer st)" using assms(4) by simp
  obtain s1 o1 where r1: "on_text parse assistantId pre st = (s1, o1)"
    by (cases "on_text parse assistantId pre st")
  have "buffer s1 = last (split_nl (buffer st @ pre))"
    using on_text_buffer [of parse assistantId pre st] r1 by simp
  then have b1: "buffer s1 = []"
    using assms(3,4) by (simp add: last_split_nl_complete)
  have ne: "bad \<noteq> []"
    using assms(1) marker_not_blank [of bad] by (auto simp: malformed_record_def trim_def)
  have r2: "on_text parse assistantId bad s1 = (s1\<lparr>buffer := bad\<rparr>, [])"
    using assms(2) b1 by (simp add: on_text_def split_nl_no_newline)
  have w: "on_text parse assistantId (pre @ bad) st = (s1\<lparr>buffer := bad\<rparr>, o1)"
    by (simp add: on_text_append r1 r2)
  have "read_loop parse assistantId chunks Closed st =
      (s1\<lparr>buffer := bad\<rparr>, None, o1 @ [Error_parsing_final_SSE_data Decode_failure])"
    using w ne assms(2)
    by (simp add: read_loop_text [OF nb] assms(5) on_done_def split_nl_no_newline
          process_final_line_malformed [OF assms(1)])
  moreover have "read_loop parse assistantId chunks' Closed st = (s1, None, o1)"
    using r1 b1 by (simp add: read_loop_text [OF nb] assms(6) on_done_def)
  ultimately show ?thesis by blast
qed

section \<open>Errors that reach the conversation\<close>

lemma read_loop_Closed_no_error: "fst (snd (read_loop parse aid chunks Closed st)) = None"
  by (induction chunks arbitrary: st) (auto split: prod.splits, metis fst_conv snd_conv)

lemma length_messages_process_line:
  "length (messages (fst (process_line parse aid line st))) = length (messages st)"
  by (auto simp: process_line_def apply_event_def split: option.splits prod.splits StreamEvent.splits)

lemma length_messages_process_final_line:
  "length (messages (fst (process_final_line parse aid line st))) = length (messages st)"
  by (auto simp: process_final_line_def apply_final_event_def split: option.splits StreamEvent.splits)

lemma length_messages_for_each:
  assumes "\<And>line s. length (messages (fst (f line s))) = length (messages s)"
  shows "length (messages (fst (for_each f ls st))) = length (messages st)"
  using assms
  by (induction ls arbitrary: st) (auto split: prod.splits, metis fst_conv)

lemma length_messages_read_loop:
  "length (messages (fst (read_loop parse aid chunks fin st))) = length (messages st)"
proof (induction chunks arbitrary: st)
  case Nil
  show ?case
    by (cases fin)
      (auto simp: on_done_def length_messages_for_each length_messages_process_final_line
         split: prod.splits, metis fst_conv length_messages_for_each length_messages_process_final_line)
next
  case (Cons c cs)
  obtain s1 o1 where r1: "on_text parse aid (decoder_decode c) st = (s1, o1)"
    by (cases "on_text parse aid (decoder_decode c) st")
  have "length (messages s1) = length (messages st)"
    using r1 length_messages_for_each [of "process_line parse aid", OF length_messages_process_line]
    by (metis (no_types, lifting) client.select_convs(1) client.surjective client.update_convs(7) fst_conv on_text_def)
  then show ?case using Cons.IH [of s1] r1 by (auto split: prod.splits)
qed

text \<open>
  An error that reaches the \<open>catch\<close> of \<open>handleSubmit\<close> becomes the last message of
  the conversation; here \<open>fetch\<close> rejects.
\<close>

lemma rejected_fetch_is_surfaced:
  assumes "trim (input st) \<noteq> []" and "\<not> isLoading st"
  shows "messages (fst (handleSubmit parse now_user now_assistant now_error (Fetch_rejected e) st)) =
           messages st @
           [\<lparr>msg_id = now_user, role = User, content = input st,
             toolCalls = None, toolResults = None\<rparr>,
            \<lparr>msg_id = now_error, role = Assistant, content = lit ''Error: '' @ e,
             toolCalls = None, toolResults = None\<rparr>]"
  using assms by (simp add: handleSubmit_def try_block_def Let_def)

text \<open>
  No event of a stream that ends normally reaches that \<open>catch\<close>: the conversation
  gains the user message and the assistant message, and nothing else.
\<close>

lemma closed_stream_adds_no_error_message:
  assumes "trim (input st) \<noteq> []" and "\<not> isLoading st"
  shows "length (messages (fst (handleSubmit parse now_user now_assistant now_error
           (Http_response True (Some (chunks, Closed))) st))) = length (messages st) + 2"
proof -
  let ?st1 = "st\<lparr>messages := messages st @
        [\<lparr>msg_id = now_user, role = User, content = input st,
          toolCalls = None, toolResults = None\<rparr>],
      input := [], isLoading := True, currentToolCalls := [], currentToolResults := [],
      assistantContent := [],
      messages := (messages st @
        [\<lparr>msg_id = now_user, role = User, content = input st,
          toolCalls = None, toolResults = None\<rparr>]) @
        [\<lparr>msg_id = now_assistant, role = Assistant, content = [],
          toolCalls = Some [], toolResults = Some []\<rparr>],
      buffer := []\<rparr>"
  obtain s err out where r: "read_loop parse now_assistant chunks Closed ?st1 = (s, err, out)"
    by (cases "read_loop parse now_assistant chunks Closed ?st1")
  have "err = None"
    using read_loop_Closed_no_error [of parse now_assistant chunks ?st1] r by simp
  moreover have "length (messages s) = length (messages st) + 2"
    using length_messages_read_loop [of parse now_assistant chunks Closed ?st1] r by simp
  ultimately show ?thesis
    using assms r by (simp add: handleSubmit_def try_block_def Let_def)
qed

text \<open>
  C2.  A stream that carries an \<open>error\<close> event and then ends: the \<open>throw\<close> of the
  \<open>error\<close> branch is caught by the \<open>catch\<close> of the same loop iteration and logged as a
  parse error.  The conversation ends with the empty assistant message, and no message
  holds the error text.
\<close>

theorem error_event_is_not_surfaced:
  \<open>handleSubmit sample_parse 1 2 3
     (Http_response True (Some ([ascii ''data: {"type":"error","error":"boom"}'' @ [10]], Closed)))
     (idle_client (lit ''hi'') :: unit client) =
   (\<lparr>messages =
        [\<lparr>msg_id = 1, role = User, content = lit ''hi'', toolCalls = None, toolResults = None\<rparr>,
         \<lparr>msg_id = 2, role = Assistant, content = [], toolCalls = Some [], toolResults = Some []\<rparr>],
      input = [], isLoading = False, currentToolCalls = [], currentToolResults = [],
      assistantContent = [], buffer = []\<rparr>,
    Some [\<lparr>entry_role = User, entry_content = lit ''hi''\<rparr>],
    [Received_event (Error (lit ''boom'')),
     Error_from_server (lit ''boom''),
     Error_parsing_SSE_data (Server_error (lit ''boom''))
       (lit ''data: {"type":"error","error":"boom"}'')])\<close>
  by (simp add: run_defs string_defs decoder_defs sample_defs)

section \<open>The pass over the buffered remainder\<close>

text \<open>
  C5.  A \<open>tool_call\<close> record without a trailing line feed is still in the buffer when
  the stream ends.  The pass over the buffer decodes it and applies nothing: the
  assistant message keeps its empty \<open>toolCalls\<close>.  The same record followed by a line
  feed is applied by the loop over the lines of the chunk.
\<close>

theorem final_pass_drops_tool_call:
  \<open>map toolCalls (messages (fst (handleSubmit sample_parse 1 2 3
     (Http_response True (Some ([ascii ''data: {"type":"tool_call","toolCall":{"id":"c1","function":{"name":"get_issues","arguments":"{}"}}}''], Closed)))
     (idle_client (lit ''hi'') :: unit client)))) = [None, Some []] \<and>
   map toolCalls (messages (fst (handleSubmit sample_parse 1 2 3
     (Http_response True (Some ([ascii ''data: {"type":"tool_call","toolCall":{"id":"c1","function":{"name":"get_issues","arguments":"{}"}}}'' @ [10]], Closed)))
     (idle_client (lit ''hi'') :: unit client)))) = [None, Some [sample_tool_call]]\<close>
  by (simp add: run_defs string_defs decoder_defs sample_defs)

section \<open>Chunk boundaries\<close>

text \<open>
  On ASCII bytes the decoder is the identity, so for a stream of ASCII bytes the loop
  does not depend on where the chunks are cut.
\<close>

lemma utf8_run_ascii:
  "\<forall>b\<in>set bs. b < 128 \<Longrightarrow> utf8_run (0, 0, 0x80, 0xBF) bs = bs"
  by (induction bs) (simp_all add: utf8_lead_def)

lemma decoder_decode_ascii:
  assumes "\<forall>b\<in>set bytes. b < 0x80"
  shows "decoder_decode bytes = map unat bytes"
proof -
  have a: "\<forall>b\<in>set (map unat bytes). b < 128"
    using assms by (auto simp: word_less_nat_alt)
  then have r: "utf8_run (0, 0, 0x80, 0xBF) (map unat bytes) = map unat bytes"
    by (rule utf8_run_ascii)
  have s: "strip_bom (map unat bytes) = map unat bytes"
    using a by (cases bytes) (auto simp: strip_bom_def)
  have u: "concat (map utf16_units xs) = xs" if "\<forall>b\<in>set xs. b < 128" for xs
    using that by (induction xs) (simp_all add: utf16_units_def)
  show ?thesis
    unfolding decoder_decode_def r s by (rule u [OF a])
qed

lemma ascii_chunking_invariance:
  assumes "buffer st = []" and "concat chunks1 = concat chunks2"
    and "\<forall>b\<in>set (concat chunks1). b < 0x80"
  shows "read_loop parse aid chunks1 fin st = read_loop parse aid chunks2 fin st"
proof -
  have d: "concat (map decoder_decode cs) = map unat (concat cs)"
    if "\<forall>b\<in>set (concat cs). b < 0x80" for cs :: "8 word list list"
    using that by (induction cs) (simp_all add: decoder_decode_ascii)
  have "10 \<notin> set (buffer st)" using assms(1) by simp
  then show ?thesis
    using assms(2,3) d [of chunks1] d [of chunks2] by (simp add: read_loop_text)
qed

text \<open>
  C1.  A \<open>content\<close> record whose text is the character U+00E9, two bytes in UTF-8,
  delivered as one chunk and delivered as two chunks that split between the two bytes
  of the character: the bytes are the same, the decoded events and the content of the
  assistant message are not.  Each chunk is decoded on its own, so each half of the
  character becomes U+FFFD.
\<close>

theorem chunk_boundary_inside_character:
  \<open>concat [ascii ''data: {"type":"content","content":"'' @ [0xC3], [0xA9] @ ascii ''"}'' @ [10]] =
     ascii ''data: {"type":"content","content":"'' @ [0xC3, 0xA9] @ ascii ''"}'' @ [10] \<and>
   snd (snd (handleSubmit sample_parse 1 2 3
     (Http_response True (Some ([ascii ''data: {"type":"content","content":"'' @ [0xC3, 0xA9] @ ascii ''"}'' @ [10]], Closed)))
     (idle_client (lit ''hi'') :: unit client))) = [Received_event (Content [0xE9])] \<and>
   snd (snd (handleSubmit sample_parse 1 2 3
     (Http_response True (Some ([ascii ''data: {"type":"content","content":"'' @ [0xC3], [0xA9] @ ascii ''"}'' @ [10]], Closed)))
     (idle_client (lit ''hi'') :: unit client))) = [Received_event (Content [0xFFFD, 0xFFFD])] \<and>
   map content (messages (fst (handleSubmit sample_parse 1 2 3
     (Http_response True (Some ([ascii ''data: {"type":"content","content":"'' @ [0xC3, 0xA9] @ ascii ''"}'' @ [10]], Closed)))
     (idle_client (lit ''hi'') :: unit client)))) = [lit ''hi'', [0xE9]] \<and>
   map content (messages (fst (handleSubmit sample_parse 1 2 3
     (Http_response True (Some ([ascii ''data: {"type":"content","content":"'' @ [0xC3], [0xA9] @ ascii ''"}'' @ [10]], Closed)))
     (idle_client (lit ''hi'') :: unit client)))) = [lit ''hi'', [0xFFFD, 0xFFFD]]\<close>
  by (simp add: run_defs string_defs decoder_defs sample_defs)

section \<open>The tables of MessageList\<close>

lemma has_data_first_with:
  assumes "has_data f trs"
  shows "\<exists>xs. first_with f trs = Some xs"
proof -
  from assms obtain r where "r \<in> set trs" and "f r \<noteq> None"
    by (auto simp: has_data_def list_ex_iff split: option.splits)
  then have "find (\<lambda>r. f r \<noteq> None) trs \<noteq> None"
    by (auto simp: find_None_iff)
  then obtain r' where fr: "find (\<lambda>r. f r \<noteq> None) trs = Some r'" by auto
  then have "f r' \<noteq> None"
    by (auto simp: find_Some_iff)
  with fr show ?thesis by (auto simp: first_with_def)
qed

lemma render_table_first_fifty:
  assumes "first_with f trs = Some xs"
  shows "shows_first_fifty row xs (render_table f row trs)"
  using assms
  by (auto simp: shows_first_fifty_def render_table_def list_all_iff min_def)

text \<open>
  C9.  Each of the three tables, when it is rendered, is a table over the array of the
  first tool result that has the field: its heading reports the full length of that
  array, and its rows are made, in order, from the first 50 entries.
\<close>

theorem tables_show_first_fifty:
  "(commits_table lc row msgs message trs = Some t \<longrightarrow>
      (\<exists>xs. first_with commits trs = Some xs \<and> shows_first_fifty row xs t)) \<and>
   (issues_table lc row msgs message trs = Some t \<longrightarrow>
      (\<exists>xs. first_with issues trs = Some xs \<and> shows_first_fifty row xs t)) \<and>
   (pull_requests_table lc row msgs message trs = Some t \<longrightarrow>
      (\<exists>xs. first_with pullRequests trs = Some xs \<and> shows_first_fifty row xs t))"
proof (intro conjI impI)
  assume "commits_table lc row msgs message trs = Some t"
  then have "has_data commits trs" and "t = render_table commits row trs"
    by (auto simp: commits_table_def Let_def split: if_splits)
  then show "\<exists>xs. first_with commits trs = Some xs \<and> shows_first_fifty row xs t"
    using has_data_first_with [of commits trs] render_table_first_fifty [of commits trs] by auto
next
  assume "issues_table lc row msgs message trs = Some t"
  then have "has_data issues trs" and "t = render_table issues row trs"
    by (auto simp: issues_table_def Let_def split: if_splits)
  then show "\<exists>xs. first_with issues trs = Some xs \<and> shows_first_fifty row xs t"
    using has_data_first_with [of issues trs] render_table_first_fifty [of issues trs] by auto
next
  assume "pull_requests_table lc row msgs message trs = Some t"
  then have "has_data pullRequests trs" and "t = render_table pullRequests row trs"
    by (auto simp: pull_requests_table_def Let_def split: if_splits)
  then show "\<exists>xs. first_with pullRequests trs = Some xs \<and> shows_first_fifty row xs t"
    using has_data_first_with [of pullRequests trs] render_table_first_fifty [of pullRequests trs]
    by auto
qed

theorem tables_show_first_fifty_witness:
  "commits_table ascii_lower Pair [sample_question, sample_answer] sample_answer [sample_result] =
     Some (render_table commits Pair [sample_result]) \<and>
   heading_count (render_table commits Pair [sample_result]) = 60 \<and>
   map_option length (body_rows (render_table commits Pair [sample_result])) = Some 50 \<and>
   (\<exists>xs. first_with commits [sample_result] = Some xs \<and>
         shows_first_fifty Pair xs (render_table commits Pair [sample_result]))"
proof -
  have u: "find_user_message [sample_question, sample_answer] sample_answer = Some sample_question"
    by (simp add: find_user_message_def sample_question_def sample_answer_def toString.simps)
  have "userContent ascii_lower [sample_question, sample_answer] sample_answer =
      ascii_lower (content sample_question)"
    by (simp add: userContent_def u)
  then have uc: "userContent ascii_lower [sample_question, sample_answer] sample_answer =
      lit ''list issues and commits''"
    by (simp add: sample_question_def ascii_lower_def)
  have h: "commits_table ascii_lower Pair [sample_question, sample_answer] sample_answer [sample_result] =
      Some (render_table commits Pair [sample_result])"
    by (simp add: commits_table_def uc has_data_def askedForCommits_def sample_result_def
          startsWith_def)
  have c: "heading_count (render_table commits Pair [sample_result]) = 60 \<and>
      map_option length (body_rows (render_table commits Pair [sample_result])) = Some 50"
    by (simp add: render_table_def first_with_def sample_result_def)
  show ?thesis
    using h c
      tables_show_first_fifty [of ascii_lower Pair "[sample_question, sample_answer]"
        sample_answer "[sample_result]" "render_table commits Pair [sample_result]"]
    by blast
qed






lemma find_user_message_Some:
  assumes "find_user_message msgs message = Some u"
  shows "u \<in> set msgs \<and> role u = User \<and>
         js_string_le (toString (msg_id u)) (toString (msg_id message)) \<and>
         (\<forall>m\<in>set msgs. role m = User \<and>
             js_string_le (toString (msg_id m)) (toString (msg_id message)) \<longrightarrow>
             msg_id m \<le> msg_id u)"
proof -
  let ?p = "\<lambda>m. role m = User \<and> js_string_le (toString (msg_id m)) (toString (msg_id message))"
  let ?k = "\<lambda>m::'a Message. - int (msg_id m)"
  from assms obtain rest where so: "sort_key ?k (filter ?p msgs) = u # rest"
    by (auto simp: find_user_message_def split: list.splits)
  have "set (sort_key ?k (filter ?p msgs)) = set (filter ?p msgs)" by simp
  then have mem: "set (u # rest) = set (filter ?p msgs)" using so by simp
  have "sorted (map ?k (sort_key ?k (filter ?p msgs)))" by (rule sorted_sort_key)
  then have "\<forall>m\<in>set rest. ?k u \<le> ?k m" using so by simp
  then have "\<forall>m\<in>set (u # rest). msg_id m \<le> msg_id u" by auto
  then show ?thesis using mem by auto
qed







end
